theory Spec2Isabelle
  imports Main
begin

section \<open>Playback tracking of \<^verbatim>\<open>audio/play.go\<close>\<close>

text \<open>
  The development embeds \<^verbatim>\<open>Play\<close>, \<^verbatim>\<open>PlayAsync\<close>, the tracking goroutine that
  \<^verbatim>\<open>PlayAsync\<close> starts, and \<^verbatim>\<open>timeoutErr\<close>.

  The goroutine communicates through channels only. Its behaviour is a function of the
  sequence of cases its \<^verbatim>\<open>select\<close> statements take, so the model runs it over such a
  sequence and records, in order, every effect that another goroutine can observe
  (closing a channel, writing \<^verbatim>\<open>pb.err\<close>, cancelling the subscription). Calls of
  \<^verbatim>\<open>Logger\<close> have no effect on the control flow and are left out.
\<close>

subsection \<open>Errors\<close>

text \<open>\<^verbatim>\<open>type timeoutErr struct { msg string }\<close> with its two methods.\<close>

record timeoutErr =
  msg :: string

definition Error :: "timeoutErr \<Rightarrow> string" where
  "Error err = msg err"

definition Timeout :: "timeoutErr \<Rightarrow> bool" where
  "Timeout err = True"

text \<open>
  A value of Go's interface type \<^verbatim>\<open>error\<close>: either a \<^verbatim>\<open>timeoutErr\<close> of this package,
  or an error that a collaborator (the player, the handle, the context) produced, which is
  opaque here.
\<close>

datatype error = TimeoutErr timeoutErr | ForeignErr string

subsection \<open>Events\<close>

type_synonym playback_id = string

text \<open>
  An event is a non-nil value of the interface \<^verbatim>\<open>ari.Event\<close>. The code looks at two things:
  the string that \<^verbatim>\<open>GetType()\<close> returns, and the dynamic type of the value, which the type
  assertions \<^verbatim>\<open>v.(*v2.PlaybackStarted)\<close> and \<^verbatim>\<open>v.(*v2.PlaybackFinished)\<close> test; for these
  two types the value carries \<^verbatim>\<open>Playback.ID\<close>. The interface does not tie the two together.
\<close>

datatype dyn = PlaybackStarted playback_id | PlaybackFinished playback_id | OtherEvent

record event =
  GetType :: string
  dynamic :: dyn

text \<open>An event whose dynamic type is the one its type tag names.\<close>

definition well_typed :: "event \<Rightarrow> bool" where
  "well_typed v =
     (if GetType v = ''PlaybackStarted'' then
        (case dynamic v of PlaybackStarted _ \<Rightarrow> True | _ \<Rightarrow> False)
      else if GetType v = ''PlaybackFinished'' then
        (case dynamic v of PlaybackFinished _ \<Rightarrow> True | _ \<Rightarrow> False)
      else True)"

text \<open>What \<^verbatim>\<open>s.C\<close> delivers, a nil interface value or an event, is well typed.\<close>

definition well_typed_opt :: "event option \<Rightarrow> bool" where
  "well_typed_opt v = (case v of None \<Rightarrow> True | Some e \<Rightarrow> well_typed e)"

text \<open>
  What the first loop receives and passes over: a nil value, an event whose tag is neither
  of the two, or a started or finished event (of the dynamic type its tag names) that carries
  another playback's identifier.
\<close>

definition unrelated :: "playback_id \<Rightarrow> event option \<Rightarrow> bool" where
  "unrelated pid v =
     (case v of
        None \<Rightarrow> True
      | Some e \<Rightarrow>
          if GetType e = ''PlaybackStarted'' then
            (case dynamic e of PlaybackStarted eid \<Rightarrow> eid \<noteq> pid | _ \<Rightarrow> False)
          else if GetType e = ''PlaybackFinished'' then
            (case dynamic e of PlaybackFinished eid \<Rightarrow> eid \<noteq> pid | _ \<Rightarrow> False)
          else True)"


subsection \<open>The cases of a \<^verbatim>\<open>select\<close>\<close>

text \<open>
  Both loops select over the same three channels: \<^verbatim>\<open>quitCh\<close>, the subscription's channel
  \<^verbatim>\<open>s.C\<close> (which delivers an event or a nil interface value), and the timer of the phase.
\<close>

datatype pick = QuitCh | EventCh "event option" | TimerCh

text \<open>
  What is ready when a \<^verbatim>\<open>select\<close> runs: whether \<^verbatim>\<open>quitCh\<close> is closed, the value at the
  head of \<^verbatim>\<open>s.C\<close> if there is one, and whether the timer has fired. Go's \<^verbatim>\<open>select\<close> takes
  one of the cases that can proceed, chosen at random, whatever the order in which they are
  written; \<open>enabled\<close> says which cases can proceed.
\<close>

record ready =
  quit_ready :: bool
  event_ready :: "event option option"
  timer_ready :: bool

fun enabled :: "ready \<Rightarrow> pick \<Rightarrow> bool" where
  "enabled r QuitCh = quit_ready r"
| "enabled r (EventCh v) = (event_ready r = Some v)"
| "enabled r TimerCh = timer_ready r"

text \<open>A case whose received value, if it has one, is well typed.\<close>

definition well_typed_pick :: "pick \<Rightarrow> bool" where
  "well_typed_pick p = (case p of EventCh v \<Rightarrow> well_typed_opt v | _ \<Rightarrow> True)"

subsection \<open>The tracking goroutine\<close>

datatype action =
    Subscribe
  | SubCancel
  | CloseStartCh
  | CloseStopCh
  | SetErr error
  | HandleCancel

datatype phase = AwaitingStart | Playing | Returned | Panicked

text \<open>
  The goroutine's state: where it is, the field \<^verbatim>\<open>pb.err\<close>, the stack of deferred calls
  (most recent first), and the effects it has had so far, oldest first.
\<close>

record task =
  phase :: phase
  pb_err :: "error option"
  deferred :: "action list"
  trace :: "action list"

definition perform :: "action \<Rightarrow> task \<Rightarrow> task" where
  "perform a t = t\<lparr>trace := trace t @ [a]\<rparr>"

definition defer_call :: "action \<Rightarrow> task \<Rightarrow> task" where
  "defer_call a t = t\<lparr>deferred := a # deferred t\<rparr>"

text \<open>Leaving the function, by \<^verbatim>\<open>return\<close> or by a panic, runs the deferred calls, last first.\<close>

definition unwind :: "phase \<Rightarrow> task \<Rightarrow> task" where
  "unwind p t = t\<lparr>phase := p, trace := trace t @ deferred t, deferred := []\<rparr>"

definition do_return :: "task \<Rightarrow> task" where
  "do_return t = unwind Returned t"

definition do_panic :: "task \<Rightarrow> task" where
  "do_panic t = unwind Panicked t"

definition set_err :: "error \<Rightarrow> task \<Rightarrow> task" where
  "set_err e t = perform (SetErr e) (t\<lparr>pb_err := Some e\<rparr>)"

definition start_timeout :: error where
  "start_timeout = TimeoutErr \<lparr>msg = ''Timeout waiting for start of playback''\<rparr>"

definition stop_timeout :: error where
  "stop_timeout = TimeoutErr \<lparr>msg = ''Timeout waiting for stop of playback''\<rparr>"

text \<open>\<^verbatim>\<open>close(pb.startCh); close(pb.stopCh); return\<close>\<close>

definition close_both_return :: "task \<Rightarrow> task" where
  "close_both_return t = do_return (perform CloseStopCh (perform CloseStartCh t))"

text \<open>
  Lines 127 to 131, after \<^verbatim>\<open>break PlaybackStartLoop\<close>: close the start channel, defer the
  closing of the stop channel, and enter the second loop.
\<close>

definition start_playing :: "task \<Rightarrow> task" where
  "start_playing t = (defer_call CloseStopCh (perform CloseStartCh t))\<lparr>phase := Playing\<rparr>"

text \<open>One iteration of \<^verbatim>\<open>PlaybackStartLoop\<close>, given the case its \<^verbatim>\<open>select\<close> takes.\<close>

fun PlaybackStartLoop :: "playback_id \<Rightarrow> pick \<Rightarrow> task \<Rightarrow> task" where
  "PlaybackStartLoop pid QuitCh t = close_both_return t"
| "PlaybackStartLoop pid (EventCh None) t = t"
| "PlaybackStartLoop pid (EventCh (Some v)) t =
     (if GetType v = ''PlaybackStarted'' then
        (case dynamic v of
           PlaybackStarted eid \<Rightarrow> if eid \<noteq> pid then t else start_playing t
         | _ \<Rightarrow> do_panic t)
      else if GetType v = ''PlaybackFinished'' then
        (case dynamic v of
           PlaybackFinished eid \<Rightarrow> if eid \<noteq> pid then t else close_both_return t
         | _ \<Rightarrow> do_panic t)
      else t)"
| "PlaybackStartLoop pid TimerCh t = close_both_return (set_err start_timeout t)"

text \<open>One iteration of \<^verbatim>\<open>PlaybackStopLoop\<close>.\<close>

fun PlaybackStopLoop :: "playback_id \<Rightarrow> pick \<Rightarrow> task \<Rightarrow> task" where
  "PlaybackStopLoop pid QuitCh t = do_return t"
| "PlaybackStopLoop pid (EventCh None) t = t"
| "PlaybackStopLoop pid (EventCh (Some v)) t =
     (if GetType v = ''PlaybackFinished'' then
        (case dynamic v of
           PlaybackFinished eid \<Rightarrow> if eid \<noteq> pid then t else do_return t
         | _ \<Rightarrow> do_panic t)
      else t)"
| "PlaybackStopLoop pid TimerCh t = do_return (set_err stop_timeout t)"

text \<open>The goroutine at its first \<^verbatim>\<open>select\<close>: \<^verbatim>\<open>defer s.Cancel()\<close> has run.\<close>

definition spawn :: task where
  "spawn = \<lparr>phase = AwaitingStart, pb_err = None, deferred = [SubCancel], trace = []\<rparr>"

definition step :: "playback_id \<Rightarrow> task \<Rightarrow> pick \<Rightarrow> task" where
  "step pid t p =
     (case phase t of
        AwaitingStart \<Rightarrow> PlaybackStartLoop pid p t
      | Playing \<Rightarrow> PlaybackStopLoop pid p t
      | Returned \<Rightarrow> t
      | Panicked \<Rightarrow> t)"

definition run :: "playback_id \<Rightarrow> task \<Rightarrow> pick list \<Rightarrow> task" where
  "run pid t ps = foldl (step pid) t ps"

definition track :: "playback_id \<Rightarrow> pick list \<Rightarrow> task" where
  "track pid ps = run pid spawn ps"

definition finished :: "task \<Rightarrow> bool" where
  "finished t = (phase t = Returned \<or> phase t = Panicked)"

subsection \<open>\<^verbatim>\<open>PlayAsync\<close>\<close>

text \<open>
  The player and the handle it returns are collaborators: \<^verbatim>\<open>p.Play(mediaURI)\<close> yields an
  error or a handle, and \<^verbatim>\<open>h.Data()\<close> an error or the playback's data.
\<close>

record PlaybackData =
  ID :: playback_id

record handle =
  Data :: "error + PlaybackData"

text \<open>
  What a call of \<^verbatim>\<open>PlayAsync\<close> has done when it returns: the value it returns (the error, or
  the \<^verbatim>\<open>Playback\<close> built around the handle), the identifier the goroutine was started with,
  if it was started, and the effects of the calling goroutine, in order.
\<close>

record async =
  returned :: "error + handle"
  spawned :: "playback_id option"
  effects :: "action list"

definition PlayAsync :: "error + handle \<Rightarrow> async" where
  "PlayAsync play_result =
     (case play_result of
        Inl err \<Rightarrow> \<lparr>returned = Inl err, spawned = None, effects = [Subscribe, SubCancel]\<rparr>
      | Inr h \<Rightarrow>
          (case Data h of
             Inl err \<Rightarrow> \<lparr>returned = Inl err, spawned = None, effects = [Subscribe, SubCancel]\<rparr>
           | Inr data \<Rightarrow> \<lparr>returned = Inr h, spawned = Some (ID data), effects = [Subscribe]\<rparr>))"

text \<open>
  Every effect of one call of \<^verbatim>\<open>PlayAsync\<close>, those of the goroutine included, when the
  goroutine's \<^verbatim>\<open>select\<close> statements take the cases \<open>ps\<close>. The \<^verbatim>\<open>go\<close> statement orders
  the caller's effects before the goroutine's.
\<close>

definition PlayAsync_effects :: "error + handle \<Rightarrow> pick list \<Rightarrow> action list" where
  "PlayAsync_effects play_result ps =
     (let a = PlayAsync play_result in
      case spawned a of
        None \<Rightarrow> effects a
      | Some pid \<Rightarrow> effects a @ trace (track pid ps))"

subsection \<open>\<^verbatim>\<open>Play\<close>\<close>

text \<open>
  Modelled from the spec: the methods \<^verbatim>\<open>StopCh\<close>, \<^verbatim>\<open>Err\<close> and \<^verbatim>\<open>Cancel\<close> of \<^verbatim>\<open>Playback\<close> are
  declared in another file. \<^verbatim>\<open>StopCh\<close> returns the stop channel, which can be received from
  once the goroutine has closed it; \<^verbatim>\<open>Err\<close> returns the stored terminal error; \<^verbatim>\<open>Cancel\<close>
  requests termination and is the effect \<open>HandleCancel\<close>.
\<close>

definition StopCh_closed :: "task \<Rightarrow> bool" where
  "StopCh_closed t = (CloseStopCh \<in> set (trace t))"

definition Err :: "task \<Rightarrow> error option" where
  "Err t = pb_err t"

datatype play_pick = StopCh | CtxDone

text \<open>
  The surroundings of one call of \<^verbatim>\<open>Play\<close>: what \<^verbatim>\<open>p.Play\<close> returns, the cases the
  goroutine has taken when the \<^verbatim>\<open>select\<close> of \<^verbatim>\<open>Play\<close> proceeds, the value of \<^verbatim>\<open>ctx.Err()\<close> at
  that moment (\<open>None\<close> while the context is not done), and the case that \<^verbatim>\<open>select\<close> takes.
\<close>

record world =
  play_result :: "error + handle"
  picks :: "pick list"
  ctx_err :: "error option"
  chosen :: play_pick

text \<open>
  \<^verbatim>\<open>Play\<close> returns an error or nil, together with the effects of its goroutine; the result is
  \<open>None\<close> when the chosen case of the \<^verbatim>\<open>select\<close> cannot proceed.
\<close>

definition Play :: "world \<Rightarrow> (error option \<times> action list) option" where
  "Play w =
     (let a = PlayAsync (play_result w) in
      case spawned a of
        None \<Rightarrow>
          (case returned a of
             Inl err \<Rightarrow> Some (Some err, effects a)
           | Inr _ \<Rightarrow> None)
      | Some pid \<Rightarrow>
          (let pb = track pid (picks w) in
           case chosen w of
             StopCh \<Rightarrow>
               if StopCh_closed pb then Some (Err pb, effects a @ [HandleCancel]) else None
           | CtxDone \<Rightarrow>
               (case ctx_err w of
                  None \<Rightarrow> None
                | Some e \<Rightarrow> Some (Some e, effects a @ [HandleCancel]))))"

subsection \<open>Observations on a sequence of effects\<close>

text \<open>No closing of the stop channel comes before the first closing of the start channel.\<close>

definition stop_not_first :: "action list \<Rightarrow> bool" where
  "stop_not_first as = (CloseStopCh \<notin> set (takeWhile (\<lambda>a. a \<noteq> CloseStartCh) as))"

subsection \<open>The states the goroutine can be in\<close>

text \<open>
  The goroutine has no loop counter and no accumulator, so only a few states are possible:
  at the first \<^verbatim>\<open>select\<close>; at the second, with the start channel closed and the closing of
  the stop channel deferred; returned, with no error or with one of the two timeout errors;
  and stopped by a panic in the first or in the second loop.
\<close>

definition playing0 :: task where
  "playing0 =
     \<lparr>phase = Playing, pb_err = None, deferred = [CloseStopCh, SubCancel],
      trace = [CloseStartCh]\<rparr>"

definition done_ok :: task where
  "done_ok =
     \<lparr>phase = Returned, pb_err = None, deferred = [],
      trace = [CloseStartCh, CloseStopCh, SubCancel]\<rparr>"

definition done_start_timeout :: task where
  "done_start_timeout =
     \<lparr>phase = Returned, pb_err = Some start_timeout, deferred = [],
      trace = [SetErr start_timeout, CloseStartCh, CloseStopCh, SubCancel]\<rparr>"

definition done_stop_timeout :: task where
  "done_stop_timeout =
     \<lparr>phase = Returned, pb_err = Some stop_timeout, deferred = [],
      trace = [CloseStartCh, SetErr stop_timeout, CloseStopCh, SubCancel]\<rparr>"

definition panic_start :: task where
  "panic_start = \<lparr>phase = Panicked, pb_err = None, deferred = [], trace = [SubCancel]\<rparr>"

definition panic_playing :: task where
  "panic_playing =
     \<lparr>phase = Panicked, pb_err = None, deferred = [],
      trace = [CloseStartCh, CloseStopCh, SubCancel]\<rparr>"

definition reachable :: "task \<Rightarrow> bool" where
  "reachable t =
     (t = spawn \<or> t = playing0 \<or> t = done_ok \<or> t = done_start_timeout \<or>
      t = done_stop_timeout \<or> t = panic_start \<or> t = panic_playing)"

text \<open>The five states among them that are not the outcome of a panic.\<close>

definition panic_free :: "task \<Rightarrow> bool" where
  "panic_free t =
     (t = spawn \<or> t = playing0 \<or> t = done_ok \<or> t = done_start_timeout \<or>
      t = done_stop_timeout)"

section \<open>Properties\<close>

lemma run_Nil [simp]: "run pid t [] = t"
  by (simp add: run_def)

lemma run_Cons [simp]: "run pid t (p # ps) = run pid (step pid t p) ps"
  by (simp add: run_def)

lemma run_append: "run pid t (ps @ qs) = run pid (run pid t ps) qs"
  by (simp add: run_def)

subsection \<open>Every run stays within the seven states\<close>

lemmas shape_defs = spawn_def playing0_def done_ok_def done_start_timeout_def
  done_stop_timeout_def panic_start_def panic_playing_def

lemmas op_defs = perform_def defer_call_def unwind_def do_return_def do_panic_def set_err_def
  close_both_return_def start_playing_def

lemma step_spawn_cases:
  "step pid spawn p \<in> {spawn, playing0, done_ok, done_start_timeout, panic_start}"
  by (rule PlaybackStartLoop.cases[of "(pid, p, spawn)"])
     (auto simp: step_def shape_defs op_defs split: dyn.splits)

lemma step_playing_cases:
  "step pid playing0 p \<in> {playing0, done_ok, done_stop_timeout, panic_playing}"
  by (rule PlaybackStopLoop.cases[of "(pid, p, playing0)"])
     (auto simp: step_def shape_defs op_defs split: dyn.splits)

lemma step_finished: "finished t \<Longrightarrow> step pid t p = t"
  by (auto simp: finished_def step_def)

lemma run_finished: "finished t \<Longrightarrow> run pid t ps = t"
  by (induction ps) (simp_all add: step_finished)

lemma reachable_step: "reachable t \<Longrightarrow> reachable (step pid t p)"
  using step_spawn_cases[of pid p] step_playing_cases[of pid p]
  unfolding reachable_def
  by (elim disjE) (auto simp: step_finished finished_def shape_defs)

lemma reachable_run: "reachable t \<Longrightarrow> reachable (run pid t ps)"
  by (induction ps arbitrary: t) (auto intro: reachable_step)

lemma reachable_track: "reachable (track pid ps)"
  unfolding track_def by (rule reachable_run) (simp add: reachable_def)

subsection \<open>Terminal errors are timeouts\<close>

text \<open>
  C7. Every error the tracking goroutine stores in \<^verbatim>\<open>pb.err\<close> is a \<^verbatim>\<open>timeoutErr\<close>, whose
  method \<^verbatim>\<open>Timeout()\<close> returns true; it is the start-timeout or the stop-timeout error. A
  caller can therefore recognise it by that method and does not need the message.
\<close>

theorem tracking_error_is_timeout:
  "pb_err (track pid ps) = Some e \<Longrightarrow>
     \<exists>te. e = TimeoutErr te \<and> Timeout te \<and>
       (Error te = ''Timeout waiting for start of playback'' \<or>
        Error te = ''Timeout waiting for stop of playback'')"
  using reachable_track[of pid ps] unfolding reachable_def
  by (elim disjE) (auto simp: shape_defs start_timeout_def stop_timeout_def Timeout_def Error_def)

theorem tracking_error_is_timeout_witness:
  "pb_err (track ''pb1'' [TimerCh]) = Some start_timeout \<and>
   (\<exists>te. start_timeout = TimeoutErr te \<and> Timeout te \<and>
       (Error te = ''Timeout waiting for start of playback'' \<or>
        Error te = ''Timeout waiting for stop of playback''))"
proof -
  have h: "pb_err (track ''pb1'' [TimerCh]) = Some start_timeout"
    by (simp add: track_def step_def spawn_def op_defs)
  from tracking_error_is_timeout[OF h] h show ?thesis by simp
qed

subsection \<open>Start, then finish\<close>

lemma wt_step_spawn:
  "well_typed_opt v \<Longrightarrow> step pid spawn (EventCh v) \<in> {spawn, playing0, done_ok}"
  by (cases v)
     (auto simp: well_typed_opt_def well_typed_def step_def shape_defs op_defs
           split: dyn.splits if_splits)

lemma wt_step_playing:
  "well_typed_opt v \<Longrightarrow> step pid playing0 (EventCh v) \<in> {playing0, done_ok}"
  by (cases v)
     (auto simp: well_typed_opt_def well_typed_def step_def shape_defs op_defs
           split: dyn.splits if_splits)

lemma step_done_ok [simp]: "step pid done_ok p = done_ok"
  by (simp add: step_def done_ok_def)

lemma run_done_ok [simp]: "run pid done_ok ps = done_ok"
  by (induction ps) simp_all












subsection \<open>The order of the two signals\<close>

lemma stop_not_first_take:
  "stop_not_first as \<Longrightarrow> CloseStopCh \<in> set (take n as) \<Longrightarrow> CloseStartCh \<in> set (take n as)"
proof (induction as arbitrary: n)
  case Nil
  then show ?case by simp
next
  case (Cons a as)
  show ?case
  proof (cases n)
    case 0
    with Cons.prems show ?thesis by simp
  next
    case (Suc m)
    show ?thesis
    proof (cases "a = CloseStartCh")
      case True
      with Suc show ?thesis by simp
    next
      case False
      with Cons.prems Suc have "stop_not_first as" "CloseStopCh \<in> set (take m as)"
        by (auto simp: stop_not_first_def)
      then have "CloseStartCh \<in> set (take m as)" by (rule Cons.IH)
      with Suc show ?thesis by simp
    qed
  qed
qed

lemma stop_not_first_track: "stop_not_first (trace (track pid ps))"
  using reachable_track[of pid ps] unfolding reachable_def
  by (elim disjE) (simp_all add: shape_defs stop_not_first_def)

text \<open>
  C2. Whatever cases the goroutine takes and however far it has come, at every point of its
  sequence of effects where the stop channel has been closed, the start channel has been
  closed too: the stop channel is never closed first.
\<close>

theorem stop_never_closed_first:
  "CloseStopCh \<in> set (take n (trace (track pid ps))) \<Longrightarrow>
     CloseStartCh \<in> set (take n (trace (track pid ps)))"
  by (rule stop_not_first_take[OF stop_not_first_track])

theorem stop_never_closed_first_witness:
  "CloseStopCh \<in> set (take 2 (trace (track ''pb1'' [QuitCh]))) \<and>
   CloseStartCh \<in> set (take 2 (trace (track ''pb1'' [QuitCh])))"
proof -
  have h: "CloseStopCh \<in> set (take 2 (trace (track ''pb1'' [QuitCh])))"
    by (simp add: track_def step_def spawn_def op_defs)
  from stop_never_closed_first[OF h] h show ?thesis by simp
qed

subsection \<open>Unrelated events and the start timeout\<close>

lemma unrelated_step: "unrelated pid v \<Longrightarrow> step pid spawn (EventCh v) = spawn"
  by (cases v) (auto simp: unrelated_def step_def spawn_def split: dyn.splits if_splits)

lemma unrelated_run: "list_all (unrelated pid) vs \<Longrightarrow> run pid spawn (map EventCh vs) = spawn"
  by (induction vs) (simp_all add: unrelated_step)

text \<open>
  C3. While the first loop receives only nil values, events with another identifier and
  events with another type tag, the goroutine stays in the first loop with no effect; when
  the start timer's case is then taken, it stores the start-timeout error, closes both
  channels and returns.
\<close>

theorem unrelated_events_then_start_timeout:
  assumes "list_all (unrelated pid) vs"
  shows "phase (track pid (map EventCh vs)) = AwaitingStart
    \<and> pb_err (track pid (map EventCh vs)) = None
    \<and> trace (track pid (map EventCh vs)) = []
    \<and> phase (track pid (map EventCh vs @ [TimerCh])) = Returned
    \<and> pb_err (track pid (map EventCh vs @ [TimerCh])) = Some start_timeout
    \<and> trace (track pid (map EventCh vs @ [TimerCh])) =
        [SetErr start_timeout, CloseStartCh, CloseStopCh, SubCancel]"
  using assms
  by (simp add: track_def run_append unrelated_run) (simp add: step_def spawn_def op_defs)

theorem unrelated_events_then_start_timeout_witness:
  "list_all (unrelated ''pb1'')
     [None,
      Some \<lparr>GetType = ''PlaybackStarted'', dynamic = PlaybackStarted ''pb2''\<rparr>,
      Some \<lparr>GetType = ''PlaybackFinished'', dynamic = PlaybackFinished ''pb2''\<rparr>,
      Some \<lparr>GetType = ''ChannelDtmfReceived'', dynamic = OtherEvent\<rparr>] \<and>
   pb_err (track ''pb1''
     (map EventCh
        [None,
         Some \<lparr>GetType = ''PlaybackStarted'', dynamic = PlaybackStarted ''pb2''\<rparr>,
         Some \<lparr>GetType = ''PlaybackFinished'', dynamic = PlaybackFinished ''pb2''\<rparr>,
         Some \<lparr>GetType = ''ChannelDtmfReceived'', dynamic = OtherEvent\<rparr>] @ [TimerCh]))
     = Some start_timeout"
proof -
  have h: "list_all (unrelated ''pb1'')
     [None,
      Some \<lparr>GetType = ''PlaybackStarted'', dynamic = PlaybackStarted ''pb2''\<rparr>,
      Some \<lparr>GetType = ''PlaybackFinished'', dynamic = PlaybackFinished ''pb2''\<rparr>,
      Some \<lparr>GetType = ''ChannelDtmfReceived'', dynamic = OtherEvent\<rparr>]"
    by (simp add: unrelated_def)
  from unrelated_events_then_start_timeout[OF h] h show ?thesis by blast
qed

subsection \<open>Finished before started\<close>

text \<open>
  C4. When the goroutine is still in the first loop and receives a \<^verbatim>\<open>PlaybackFinished\<close> event
  with the playback's identifier, it closes the start channel and the stop channel and
  returns, with \<^verbatim>\<open>pb.err\<close> nil.
\<close>

theorem finished_before_started:
  assumes "phase (track pid ps) = AwaitingStart"
    and "GetType v = ''PlaybackFinished''" and "dynamic v = PlaybackFinished pid"
  shows "phase (track pid (ps @ [EventCh (Some v)])) = Returned
    \<and> pb_err (track pid (ps @ [EventCh (Some v)])) = None
    \<and> trace (track pid (ps @ [EventCh (Some v)])) = [CloseStartCh, CloseStopCh, SubCancel]"
proof -
  have "track pid ps = spawn"
    using reachable_track[of pid ps] assms(1) unfolding reachable_def
    by (elim disjE) (simp_all add: shape_defs)
  then show ?thesis
    using assms(2,3) by (simp add: track_def run_append) (simp add: step_def spawn_def op_defs)
qed

theorem finished_before_started_witness:
  "phase (track ''pb1'' [EventCh None]) = AwaitingStart \<and>
   trace (track ''pb1'' ([EventCh None] @
      [EventCh (Some \<lparr>GetType = ''PlaybackFinished'', dynamic = PlaybackFinished ''pb1''\<rparr>)]))
     = [CloseStartCh, CloseStopCh, SubCancel]"
proof -
  have h: "phase (track ''pb1'' [EventCh None]) = AwaitingStart"
    by (simp add: track_def step_def spawn_def)
  from finished_before_started[OF h,
      of "\<lparr>GetType = ''PlaybackFinished'', dynamic = PlaybackFinished ''pb1''\<rparr>"] h
  show ?thesis by simp
qed

subsection \<open>Every run ends\<close>

lemma step_quit_timer_finished:
  "p = QuitCh \<or> p = TimerCh \<Longrightarrow> finished (step pid t p)"
  by (cases "phase t") (auto simp: finished_def step_def op_defs)

lemma finished_run: "finished t \<Longrightarrow> finished (run pid t ps)"
  by (simp add: run_finished)

lemma run_finishes:
  "QuitCh \<in> set ps \<or> TimerCh \<in> set ps \<Longrightarrow> finished (run pid t ps)"
proof (induction ps arbitrary: t)
  case Nil
  then show ?case by simp
next
  case (Cons p ps)
  show ?case
  proof (cases "p = QuitCh \<or> p = TimerCh")
    case True
    then have "finished (step pid t p)" by (rule step_quit_timer_finished)
    then show ?thesis by (simp add: finished_run)
  next
    case False
    with Cons.prems have "QuitCh \<in> set ps \<or> TimerCh \<in> set ps" by auto
    then show ?thesis by (simp add: Cons.IH)
  qed
qed

lemma track_finishes: "QuitCh \<in> set ps \<or> TimerCh \<in> set ps \<Longrightarrow> finished (track pid ps)"
  unfolding track_def by (rule run_finishes)

subsection \<open>Well-typed events never cause a panic\<close>

lemma panic_free_step:
  assumes "panic_free t" "well_typed_pick p"
  shows "panic_free (step pid t p)"
proof (cases p)
  case QuitCh
  with assms(1) show ?thesis
    unfolding panic_free_def by (elim disjE) (simp_all add: step_def shape_defs op_defs)
next
  case (EventCh v)
  with assms(2) have wt: "well_typed_opt v" by (simp add: well_typed_pick_def)
  from assms(1) show ?thesis
    unfolding panic_free_def
  proof (elim disjE)
    assume "t = spawn"
    with wt_step_spawn[OF wt, of pid] EventCh show "step pid t p = spawn \<or> step pid t p = playing0 \<or>
      step pid t p = done_ok \<or> step pid t p = done_start_timeout \<or> step pid t p = done_stop_timeout"
      by auto
  next
    assume "t = playing0"
    with wt_step_playing[OF wt, of pid] EventCh show "step pid t p = spawn \<or> step pid t p = playing0 \<or>
      step pid t p = done_ok \<or> step pid t p = done_start_timeout \<or> step pid t p = done_stop_timeout"
      by auto
  qed (simp_all add: step_def shape_defs)
next
  case TimerCh
  with assms(1) show ?thesis
    unfolding panic_free_def by (elim disjE) (simp_all add: step_def shape_defs op_defs)
qed

lemma panic_free_run:
  "panic_free t \<Longrightarrow> list_all well_typed_pick ps \<Longrightarrow> panic_free (run pid t ps)"
  by (induction ps arbitrary: t) (simp_all add: panic_free_step)

lemma panic_free_track: "list_all well_typed_pick ps \<Longrightarrow> phase (track pid ps) \<noteq> Panicked"
proof -
  assume "list_all well_typed_pick ps"
  then have "panic_free (track pid ps)"
    unfolding track_def by (intro panic_free_run) (simp_all add: panic_free_def)
  then show ?thesis
    unfolding panic_free_def by (elim disjE) (simp_all add: shape_defs)
qed

subsection \<open>The subscription is released once\<close>

lemma count_SubCancel_finished:
  "finished (track pid ps) \<Longrightarrow> count_list (trace (track pid ps)) SubCancel = 1
     \<and> last (trace (track pid ps)) = SubCancel"
  using reachable_track[of pid ps] unfolding reachable_def
  by (elim disjE) (simp_all add: finished_def shape_defs)

lemma count_SubCancel_running:
  "\<not> finished (track pid ps) \<Longrightarrow> count_list (trace (track pid ps)) SubCancel = 0"
  using reachable_track[of pid ps] unfolding reachable_def
  by (elim disjE) (simp_all add: finished_def shape_defs)

text \<open>
  C5. When \<^verbatim>\<open>p.Play\<close> or \<^verbatim>\<open>h.Data\<close> fails, \<^verbatim>\<open>PlayAsync\<close> cancels the subscription once,
  returns the error and starts no goroutine. Otherwise it starts the goroutine, and the
  subscription is cancelled exactly once, as the goroutine's last effect, on every path by
  which the goroutine ends, and not before; the goroutine ends as soon as it takes the case
  of \<^verbatim>\<open>quitCh\<close> or of a timer.
\<close>

theorem subscription_released_once:
  "(r = Inl e \<or> (r = Inr h \<and> Data h = Inl e) \<longrightarrow>
      returned (PlayAsync r) = Inl e \<and> spawned (PlayAsync r) = None \<and>
      PlayAsync_effects r ps = [Subscribe, SubCancel])
   \<and> (r = Inr h \<and> Data h = Inr d \<longrightarrow>
        returned (PlayAsync r) = Inr h \<and> spawned (PlayAsync r) = Some (ID d) \<and>
        PlayAsync_effects r ps = Subscribe # trace (track (ID d) ps) \<and>
        (finished (track (ID d) ps) \<longrightarrow>
           count_list (PlayAsync_effects r ps) SubCancel = 1 \<and>
           last (PlayAsync_effects r ps) = SubCancel) \<and>
        (\<not> finished (track (ID d) ps) \<longrightarrow> count_list (PlayAsync_effects r ps) SubCancel = 0) \<and>
        (QuitCh \<in> set ps \<or> TimerCh \<in> set ps \<longrightarrow> finished (track (ID d) ps)))"
proof (intro conjI impI)
  assume "r = Inl e \<or> (r = Inr h \<and> Data h = Inl e)"
  then show "returned (PlayAsync r) = Inl e" "spawned (PlayAsync r) = None"
    "PlayAsync_effects r ps = [Subscribe, SubCancel]"
    by (auto simp: PlayAsync_def PlayAsync_effects_def)
next
  assume ok: "r = Inr h \<and> Data h = Inr d"
  then show "returned (PlayAsync r) = Inr h" "spawned (PlayAsync r) = Some (ID d)"
    by (simp_all add: PlayAsync_def)
  from ok show eff: "PlayAsync_effects r ps = Subscribe # trace (track (ID d) ps)"
    by (simp add: PlayAsync_def PlayAsync_effects_def)
  {
    assume "finished (track (ID d) ps)"
    then show "count_list (PlayAsync_effects r ps) SubCancel = 1"
      "last (PlayAsync_effects r ps) = SubCancel"
      using count_SubCancel_finished[of "ID d" ps] by (auto simp: eff)
  }
  {
    assume "\<not> finished (track (ID d) ps)"
    then show "count_list (PlayAsync_effects r ps) SubCancel = 0"
      using count_SubCancel_running[of "ID d" ps] by (simp add: eff)
  }
  {
    assume "QuitCh \<in> set ps \<or> TimerCh \<in> set ps"
    then show "finished (track (ID d) ps)" by (rule track_finishes)
  }
qed

theorem subscription_released_once_witness:
  "PlayAsync_effects (Inl (ForeignErr ''play failed'')) [] = [Subscribe, SubCancel] \<and>
   PlayAsync_effects (Inr \<lparr>Data = Inl (ForeignErr ''no data'')\<rparr>) [] = [Subscribe, SubCancel] \<and>
   finished (track ''pb1'' [TimerCh]) \<and>
   count_list (PlayAsync_effects (Inr \<lparr>Data = Inr \<lparr>ID = ''pb1''\<rparr>\<rparr>) [TimerCh]) SubCancel = 1 \<and>
   \<not> finished (track ''pb1'' [EventCh None]) \<and>
   count_list (PlayAsync_effects (Inr \<lparr>Data = Inr \<lparr>ID = ''pb1''\<rparr>\<rparr>) [EventCh None]) SubCancel = 0"
proof -
  have f: "finished (track ''pb1'' [TimerCh])"
    by (simp add: finished_def track_def step_def spawn_def op_defs)
  have n: "\<not> finished (track ''pb1'' [EventCh None])"
    by (simp add: finished_def track_def step_def spawn_def)
  have 1: "PlayAsync_effects (Inl (ForeignErr ''play failed'')) [] = [Subscribe, SubCancel]"
    using subscription_released_once[where r = "Inl (ForeignErr ''play failed'')"
        and e = "ForeignErr ''play failed''" and ps = "[]"]
    by blast
  have 2: "PlayAsync_effects (Inr \<lparr>Data = Inl (ForeignErr ''no data'')\<rparr>) [] =
      [Subscribe, SubCancel]"
    using subscription_released_once[where r = "Inr \<lparr>Data = Inl (ForeignErr ''no data'')\<rparr>"
        and e = "ForeignErr ''no data''" and h = "\<lparr>Data = Inl (ForeignErr ''no data'')\<rparr>"
        and ps = "[]"]
    by simp
  have 3: "count_list (PlayAsync_effects (Inr \<lparr>Data = Inr \<lparr>ID = ''pb1''\<rparr>\<rparr>) [TimerCh])
      SubCancel = 1"
    using f subscription_released_once[where r = "Inr \<lparr>Data = Inr \<lparr>ID = ''pb1''\<rparr>\<rparr>"
        and h = "\<lparr>Data = Inr \<lparr>ID = ''pb1''\<rparr>\<rparr>" and d = "\<lparr>ID = ''pb1''\<rparr>"
        and ps = "[TimerCh]"]
    by auto
  have 4: "count_list (PlayAsync_effects (Inr \<lparr>Data = Inr \<lparr>ID = ''pb1''\<rparr>\<rparr>) [EventCh None])
      SubCancel = 0"
    using n subscription_released_once[where r = "Inr \<lparr>Data = Inr \<lparr>ID = ''pb1''\<rparr>\<rparr>"
        and h = "\<lparr>Data = Inr \<lparr>ID = ''pb1''\<rparr>\<rparr>" and d = "\<lparr>ID = ''pb1''\<rparr>"
        and ps = "[EventCh None]"]
    by auto
  from 1 2 3 4 f n show ?thesis by blast
qed

subsection \<open>No channel is closed twice\<close>

text \<open>
  C8, as amended. On no run does the goroutine close the start channel or the stop channel
  more than once. On every run that returns, by any of the terminal branches of the two
  loops, it has closed each of them exactly once. A run over events of the dynamic type their
  tag names returns as soon as it takes the case of \<^verbatim>\<open>quitCh\<close> or of a timer.
\<close>

theorem channels_closed_once:
  "count_list (trace (track pid ps)) CloseStartCh \<le> 1
   \<and> count_list (trace (track pid ps)) CloseStopCh \<le> 1
   \<and> (phase (track pid ps) = Returned \<longrightarrow>
        count_list (trace (track pid ps)) CloseStartCh = 1 \<and>
        count_list (trace (track pid ps)) CloseStopCh = 1)
   \<and> (list_all well_typed_pick ps \<and> (QuitCh \<in> set ps \<or> TimerCh \<in> set ps) \<longrightarrow>
        phase (track pid ps) = Returned)"
proof (intro conjI impI)
  show "count_list (trace (track pid ps)) CloseStartCh \<le> 1"
    using reachable_track[of pid ps] unfolding reachable_def
    by (elim disjE) (simp_all add: shape_defs)
  show "count_list (trace (track pid ps)) CloseStopCh \<le> 1"
    using reachable_track[of pid ps] unfolding reachable_def
    by (elim disjE) (simp_all add: shape_defs)
next
  assume "phase (track pid ps) = Returned"
  then show "count_list (trace (track pid ps)) CloseStartCh = 1"
    using reachable_track[of pid ps] unfolding reachable_def
    by (elim disjE) (simp_all add: shape_defs)
next
  assume "phase (track pid ps) = Returned"
  then show "count_list (trace (track pid ps)) CloseStopCh = 1"
    using reachable_track[of pid ps] unfolding reachable_def
    by (elim disjE) (simp_all add: shape_defs)
next
  assume a: "list_all well_typed_pick ps \<and> (QuitCh \<in> set ps \<or> TimerCh \<in> set ps)"
  then have "finished (track pid ps)" by (simp add: track_finishes)
  moreover from a have "phase (track pid ps) \<noteq> Panicked" by (simp add: panic_free_track)
  ultimately show "phase (track pid ps) = Returned" by (simp add: finished_def)
qed

theorem channels_closed_once_witness:
  "list_all well_typed_pick
     [EventCh (Some \<lparr>GetType = ''PlaybackStarted'', dynamic = PlaybackStarted ''pb1''\<rparr>), QuitCh] \<and>
   phase (track ''pb1''
     [EventCh (Some \<lparr>GetType = ''PlaybackStarted'', dynamic = PlaybackStarted ''pb1''\<rparr>), QuitCh])
     = Returned \<and>
   count_list (trace (track ''pb1''
     [EventCh (Some \<lparr>GetType = ''PlaybackStarted'', dynamic = PlaybackStarted ''pb1''\<rparr>), QuitCh]))
     CloseStartCh = 1 \<and>
   count_list (trace (track ''pb1''
     [EventCh (Some \<lparr>GetType = ''PlaybackStarted'', dynamic = PlaybackStarted ''pb1''\<rparr>), QuitCh]))
     CloseStopCh = 1"
proof -
  have h: "list_all well_typed_pick
     [EventCh (Some \<lparr>GetType = ''PlaybackStarted'', dynamic = PlaybackStarted ''pb1''\<rparr>), QuitCh]"
    by (simp add: well_typed_pick_def well_typed_opt_def well_typed_def)
  from h channels_closed_once[of "''pb1''"
     "[EventCh (Some \<lparr>GetType = ''PlaybackStarted'', dynamic = PlaybackStarted ''pb1''\<rparr>), QuitCh]"]
  show ?thesis by simp
qed

text \<open>
  The claim as it was stated speaks of every run. A run that receives, in the first loop, an
  event tagged \<^verbatim>\<open>PlaybackStarted\<close> of another dynamic type ends in the panic of the type
  assertion: only the deferred \<^verbatim>\<open>s.Cancel()\<close> runs, and neither channel is closed.
\<close>

theorem panic_in_first_loop_closes_no_channel:
  "finished (track ''pb1''
     [EventCh (Some \<lparr>GetType = ''PlaybackStarted'', dynamic = OtherEvent\<rparr>)])
   \<and> phase (track ''pb1''
     [EventCh (Some \<lparr>GetType = ''PlaybackStarted'', dynamic = OtherEvent\<rparr>)]) = Panicked
   \<and> trace (track ''pb1''
     [EventCh (Some \<lparr>GetType = ''PlaybackStarted'', dynamic = OtherEvent\<rparr>)]) = [SubCancel]
   \<and> count_list (trace (track ''pb1''
     [EventCh (Some \<lparr>GetType = ''PlaybackStarted'', dynamic = OtherEvent\<rparr>)])) CloseStartCh = 0
   \<and> count_list (trace (track ''pb1''
     [EventCh (Some \<lparr>GetType = ''PlaybackStarted'', dynamic = OtherEvent\<rparr>)])) CloseStopCh = 0"
  by (simp add: finished_def track_def step_def spawn_def op_defs)

subsection \<open>\<^verbatim>\<open>Play\<close> and the handle's cancellation\<close>

text \<open>
  C6, as amended. Once \<^verbatim>\<open>PlayAsync\<close> has returned a handle, \<^verbatim>\<open>Play\<close> calls the handle's
  \<^verbatim>\<open>Cancel\<close> on every path by which it returns, as its last effect. If the stop channel is
  closed and the context is not done, the \<^verbatim>\<open>select\<close> can only take the stop channel and
  \<^verbatim>\<open>Play\<close> returns the handle's stored error (nil on success); if the context is done and
  the stop channel is not closed, it can only take the context's case and \<^verbatim>\<open>Play\<close> returns
  the context's error. Whichever case is taken, the result is the one that belongs to it.
\<close>

theorem Play_cancels_and_returns:
  assumes "play_result w = Inr h" and "Data h = Inr d"
  shows "(Play w = Some (res, eff) \<longrightarrow> eff = [Subscribe, HandleCancel])
    \<and> (StopCh_closed (track (ID d) (picks w)) \<and> ctx_err w = None \<longrightarrow>
         Play w = (if chosen w = StopCh
                   then Some (Err (track (ID d) (picks w)), [Subscribe, HandleCancel])
                   else None))
    \<and> (\<not> StopCh_closed (track (ID d) (picks w)) \<and> ctx_err w = Some e \<longrightarrow>
         Play w = (if chosen w = CtxDone then Some (Some e, [Subscribe, HandleCancel]) else None))
    \<and> (chosen w = StopCh \<and> Play w = Some (res, eff) \<longrightarrow>
         StopCh_closed (track (ID d) (picks w)) \<and> res = Err (track (ID d) (picks w)))
    \<and> (chosen w = CtxDone \<and> Play w = Some (res, eff) \<longrightarrow>
         res \<noteq> None \<and> res = ctx_err w)"
  using assms
  by (cases "chosen w")
     (auto simp: Play_def PlayAsync_def Let_def split: option.splits if_splits)

theorem Play_cancels_and_returns_witness:
  "StopCh_closed (track ''pb1'' [TimerCh]) \<and>
   Play \<lparr>play_result = Inr \<lparr>Data = Inr \<lparr>ID = ''pb1''\<rparr>\<rparr>, picks = [TimerCh], ctx_err = None,
         chosen = StopCh\<rparr>
     = Some (Some start_timeout, [Subscribe, HandleCancel]) \<and>
   \<not> StopCh_closed (track ''pb1'' []) \<and>
   Play \<lparr>play_result = Inr \<lparr>Data = Inr \<lparr>ID = ''pb1''\<rparr>\<rparr>, picks = [],
         ctx_err = Some (ForeignErr ''context canceled''), chosen = CtxDone\<rparr>
     = Some (Some (ForeignErr ''context canceled''), [Subscribe, HandleCancel])"
proof -
  have c: "StopCh_closed (track ''pb1'' [TimerCh])"
    by (simp add: StopCh_closed_def track_def step_def spawn_def op_defs)
  have e: "Err (track ''pb1'' [TimerCh]) = Some start_timeout"
    by (simp add: Err_def track_def step_def spawn_def op_defs)
  have n: "\<not> StopCh_closed (track ''pb1'' [])"
    by (simp add: StopCh_closed_def track_def spawn_def)
  have "play_result \<lparr>play_result = Inr \<lparr>Data = Inr \<lparr>ID = ''pb1''\<rparr>\<rparr>, picks = [TimerCh],
         ctx_err = None, chosen = StopCh\<rparr> = Inr \<lparr>Data = Inr \<lparr>ID = ''pb1''\<rparr>\<rparr>"
    and d: "Data \<lparr>Data = Inr \<lparr>ID = ''pb1''\<rparr>\<rparr> = Inr \<lparr>ID = ''pb1''\<rparr>"
    by simp_all
  from Play_cancels_and_returns[OF this, where res = None and eff = "[]" and e = start_timeout]
  have "StopCh_closed (track ''pb1'' [TimerCh]) \<longrightarrow>
    Play \<lparr>play_result = Inr \<lparr>Data = Inr \<lparr>ID = ''pb1''\<rparr>\<rparr>, picks = [TimerCh],
         ctx_err = None, chosen = StopCh\<rparr>
     = Some (Err (track ''pb1'' [TimerCh]), [Subscribe, HandleCancel])"
    by simp
  with c e have 1: "Play \<lparr>play_result = Inr \<lparr>Data = Inr \<lparr>ID = ''pb1''\<rparr>\<rparr>, picks = [TimerCh],
         ctx_err = None, chosen = StopCh\<rparr>
     = Some (Some start_timeout, [Subscribe, HandleCancel])"
    by simp
  have "play_result \<lparr>play_result = Inr \<lparr>Data = Inr \<lparr>ID = ''pb1''\<rparr>\<rparr>, picks = [],
         ctx_err = Some (ForeignErr ''context canceled''), chosen = CtxDone\<rparr>
      = Inr \<lparr>Data = Inr \<lparr>ID = ''pb1''\<rparr>\<rparr>"
    by simp
  from Play_cancels_and_returns[OF this d, where res = None and eff = "[]"
      and e = "ForeignErr ''context canceled''"]
  have "\<not> StopCh_closed (track ''pb1'' []) \<longrightarrow>
    Play \<lparr>play_result = Inr \<lparr>Data = Inr \<lparr>ID = ''pb1''\<rparr>\<rparr>, picks = [],
         ctx_err = Some (ForeignErr ''context canceled''), chosen = CtxDone\<rparr>
     = Some (Some (ForeignErr ''context canceled''), [Subscribe, HandleCancel])"
    by simp
  with n have 2: "Play \<lparr>play_result = Inr \<lparr>Data = Inr \<lparr>ID = ''pb1''\<rparr>\<rparr>, picks = [],
         ctx_err = Some (ForeignErr ''context canceled''), chosen = CtxDone\<rparr>
     = Some (Some (ForeignErr ''context canceled''), [Subscribe, HandleCancel])"
    by simp
  from c n 1 2 show ?thesis by simp
qed

text \<open>
  The claim as it was stated speaks of every path by which \<^verbatim>\<open>Play\<close> returns. When
  \<^verbatim>\<open>p.Play\<close> fails, \<^verbatim>\<open>PlayAsync\<close> returns no handle and \<^verbatim>\<open>Play\<close> returns the error before
  \<^verbatim>\<open>defer pb.Cancel()\<close> is reached: no cancellation of a handle takes place.
\<close>

theorem Play_skips_cancel_on_setup_error:
  "Play \<lparr>play_result = Inl (ForeignErr ''play failed''), picks = [], ctx_err = None,
         chosen = StopCh\<rparr>
     = Some (Some (ForeignErr ''play failed''), [Subscribe, SubCancel])
   \<and> count_list [Subscribe, SubCancel] HandleCancel = 0"
  by (simp add: Play_def PlayAsync_def)

subsection \<open>Cancellation at a \<^verbatim>\<open>select\<close>\<close>

text \<open>
  C9, as amended. Each of the two \<^verbatim>\<open>select\<close> statements has a case for \<^verbatim>\<open>quitCh\<close>, which can
  proceed exactly when \<^verbatim>\<open>quitCh\<close> is closed; taking it in either loop makes the goroutine
  return and leaves \<^verbatim>\<open>pb.err\<close> as it is. When cancellation is the only case that can
  proceed, it is the case taken. When an event or the timer is ready as well, their cases can
  proceed too, and \<^verbatim>\<open>select\<close> gives no case precedence.
\<close>

theorem cancellation_is_a_case:
  "enabled r QuitCh = quit_ready r
   \<and> enabled r TimerCh = timer_ready r
   \<and> enabled r (EventCh v) = (event_ready r = Some v)
   \<and> (quit_ready r \<and> event_ready r = None \<and> \<not> timer_ready r \<and> enabled r p \<longrightarrow> p = QuitCh)
   \<and> (phase t = AwaitingStart \<or> phase t = Playing \<longrightarrow>
        phase (step pid t QuitCh) = Returned \<and> pb_err (step pid t QuitCh) = pb_err t)"
  by (cases p) (auto simp: step_def op_defs)

theorem cancellation_is_a_case_witness:
  "quit_ready \<lparr>quit_ready = True, event_ready = None, timer_ready = False\<rparr>
   \<and> event_ready \<lparr>quit_ready = True, event_ready = None, timer_ready = False\<rparr> = None
   \<and> \<not> timer_ready \<lparr>quit_ready = True, event_ready = None, timer_ready = False\<rparr>
   \<and> enabled \<lparr>quit_ready = True, event_ready = None, timer_ready = False\<rparr> QuitCh
   \<and> phase spawn = AwaitingStart
   \<and> phase (step ''pb1'' spawn QuitCh) = Returned
   \<and> pb_err (step ''pb1'' spawn QuitCh) = None"
  using cancellation_is_a_case[where
      r = "\<lparr>quit_ready = True, event_ready = None, timer_ready = False\<rparr>"
      and p = QuitCh and t = spawn and pid = "''pb1''"]
  by (simp add: spawn_def)

text \<open>
  With \<^verbatim>\<open>quitCh\<close> closed and the start timer fired, the timer's case can proceed; if it is
  taken, the goroutine ends with the start-timeout error, where the cancellation branch would
  have ended with none. Cancellation does not preempt the timer.
\<close>

theorem select_may_pass_over_cancellation:
  "quit_ready \<lparr>quit_ready = True, event_ready = None, timer_ready = True\<rparr>
   \<and> enabled \<lparr>quit_ready = True, event_ready = None, timer_ready = True\<rparr> TimerCh
   \<and> pb_err (step ''pb1'' spawn TimerCh) = Some start_timeout
   \<and> pb_err (step ''pb1'' spawn QuitCh) = None"
  by (simp add: step_def spawn_def op_defs)

subsection \<open>Events whose dynamic type does not match their tag\<close>

text \<open>
  C10, as amended. In the first loop, an event tagged \<^verbatim>\<open>PlaybackStarted\<close> or
  \<^verbatim>\<open>PlaybackFinished\<close> whose dynamic type is not the one the tag names makes the goroutine
  panic on the type assertion. In the second loop this holds for the tag \<^verbatim>\<open>PlaybackFinished\<close>
  only: there an event tagged \<^verbatim>\<open>PlaybackStarted\<close> reaches the \<^verbatim>\<open>default\<close> branch and is ignored,
  whatever its dynamic type.
\<close>

theorem mistyped_event_panics:
  "(phase t = AwaitingStart \<and> \<not> well_typed v \<longrightarrow>
      phase (step pid t (EventCh (Some v))) = Panicked)
   \<and> (phase t = Playing \<and> GetType v = ''PlaybackFinished'' \<and> \<not> well_typed v \<longrightarrow>
        phase (step pid t (EventCh (Some v))) = Panicked)
   \<and> (phase t = Playing \<and> GetType v = ''PlaybackStarted'' \<longrightarrow>
        step pid t (EventCh (Some v)) = t)"
  by (auto simp: step_def well_typed_def op_defs split: dyn.splits if_splits)

theorem mistyped_event_panics_witness:
  "phase spawn = AwaitingStart
   \<and> \<not> well_typed \<lparr>GetType = ''PlaybackStarted'', dynamic = PlaybackFinished ''pb1''\<rparr>
   \<and> phase (step ''pb1'' spawn
        (EventCh (Some \<lparr>GetType = ''PlaybackStarted'', dynamic = PlaybackFinished ''pb1''\<rparr>)))
      = Panicked
   \<and> phase playing0 = Playing
   \<and> \<not> well_typed \<lparr>GetType = ''PlaybackFinished'', dynamic = OtherEvent\<rparr>
   \<and> phase (step ''pb1'' playing0
        (EventCh (Some \<lparr>GetType = ''PlaybackFinished'', dynamic = OtherEvent\<rparr>))) = Panicked
   \<and> step ''pb1'' playing0 (EventCh (Some \<lparr>GetType = ''PlaybackStarted'', dynamic = OtherEvent\<rparr>))
      = playing0"
proof -
  have a: "phase spawn = AwaitingStart" "phase playing0 = Playing"
    by (simp_all add: spawn_def playing0_def)
  have w: "\<not> well_typed \<lparr>GetType = ''PlaybackStarted'', dynamic = PlaybackFinished ''pb1''\<rparr>"
    "\<not> well_typed \<lparr>GetType = ''PlaybackFinished'', dynamic = OtherEvent\<rparr>"
    by (simp_all add: well_typed_def)
  have 1: "phase (step ''pb1'' spawn
        (EventCh (Some \<lparr>GetType = ''PlaybackStarted'', dynamic = PlaybackFinished ''pb1''\<rparr>)))
      = Panicked"
    using a w mistyped_event_panics[where t = spawn and pid = "''pb1''"
      and v = "\<lparr>GetType = ''PlaybackStarted'', dynamic = PlaybackFinished ''pb1''\<rparr>"]
    by blast
  have 2: "phase (step ''pb1'' playing0
        (EventCh (Some \<lparr>GetType = ''PlaybackFinished'', dynamic = OtherEvent\<rparr>))) = Panicked"
    using a w mistyped_event_panics[where t = playing0 and pid = "''pb1''"
      and v = "\<lparr>GetType = ''PlaybackFinished'', dynamic = OtherEvent\<rparr>"]
    by auto
  have 3: "step ''pb1'' playing0
      (EventCh (Some \<lparr>GetType = ''PlaybackStarted'', dynamic = OtherEvent\<rparr>)) = playing0"
    using a mistyped_event_panics[where t = playing0 and pid = "''pb1''"
      and v = "\<lparr>GetType = ''PlaybackStarted'', dynamic = OtherEvent\<rparr>"]
    by auto
  from a w 1 2 3 show ?thesis by blast
qed

text \<open>
  After a matching \<^verbatim>\<open>PlaybackStarted\<close> the goroutine is in the second loop; an event tagged
  \<^verbatim>\<open>PlaybackStarted\<close> of another dynamic type is then ignored, and the goroutine goes on
  waiting.
\<close>

theorem mistyped_started_ignored_while_playing:
  "phase (track ''pb1''
     [EventCh (Some \<lparr>GetType = ''PlaybackStarted'', dynamic = PlaybackStarted ''pb1''\<rparr>),
      EventCh (Some \<lparr>GetType = ''PlaybackStarted'', dynamic = OtherEvent\<rparr>)]) = Playing"
  by (simp add: track_def step_def spawn_def op_defs)

end
